theory Spec2Isabelle
  imports Main "HOL-Library.Multiset"
begin

section \<open>The shared browser and its tab pool (middlewares.py)\<close>

text \<open>
  The module keeps three globals (\<open>_GLOBAL_DRIVER\<close>, \<open>_GLOBAL_TAB_POOL\<close>,
  \<open>_GLOBAL_MAX_TABS\<close>, lines 19 to 21) and two locks (lines 22 and 23). The driver
  and the queue are Python objects that stay reachable through a middleware instance after
  the globals are reset to \<open>None\<close>, so both live in an explicit store, addressed by
  references; a global or an attribute holds a reference or \<open>None\<close>.
\<close>

subsection \<open>The Selenium driver, as far as the middleware uses it\<close>

text \<open>
  Selenium is a library outside the repository; what follows is the behaviour the
  middleware relies on. A window handle is an opaque identifier issued by the browser (a
  string in Selenium, a number here; the code only stores, compares and prints it). The
  driver object records its open handles in creation order, the handle that has the
  focus, whether \<open>quit()\<close> has ended the session, and every call the middleware has made
  on it (one entry for each call in \<open>middlewares.py\<close>, whatever the library sends to the
  browser for it). A browser starts with one tab; \<open>window.open\<close> adds one tab with a
  handle not in use; a call made after \<open>quit()\<close> raises. Every other call succeeds or
  raises as the world decides, which each method receives as an argument.
\<close>

type_synonym handle = nat
type_synonym ref = nat

datatype browser_kind = Firefox | Chrome

datatype command =
    CurrentWindowHandle | ExecuteScript | WindowHandles
  | SwitchTo handle | Get string | PageSource | CurrentUrl | Quit

text \<open>
  The exceptions that can leave the middleware: those of the driver library, Python's
  \<open>AttributeError\<close> for a method called on \<open>None\<close>, and \<open>SessionClosed\<close>, which the
  design document names for a call after teardown and which no statement of
  \<open>middlewares.py\<close> raises.
\<close>

datatype error =
    LaunchFailure | InvalidSessionId | NoSuchWindow
  | SetupFailure | SwitchFailure | NavigationFailure | CaptureFailure | QuitFailure
  | AttributeError | SessionClosed

record webdriver =
  kind :: browser_kind
  window_handles :: "handle list"
  current_window_handle :: handle
  alive :: bool
  issued :: "command list"

text \<open>What the world answers to one page load: the page source and the address after
  redirects, or the step that raises (the switch of line 248, the load of line 252, the
  reads of lines 255 and 256).\<close>

datatype fetch = Loaded string string | SwitchRaises | GetRaises | CaptureRaises

text \<open>
  What the world answers to one construction that finds no browser stored. The driver
  executable is not found or the browser does not come up (lines 118 to 142 raise); or the
  browser comes up and one of the calls that follow raises, numbered in the order the
  constructor makes them: 0 is the read of \<open>current_window_handle\<close> (line 148), \<open>i + 1\<close>
  is the \<open>execute_script\<close> of round \<open>i\<close> of the loop (line 154), and the number after
  the last round is the read of \<open>window_handles\<close> (line 158); a number beyond that names
  no call and nothing raises; or the browser comes up and every call succeeds.
\<close>

datatype startup = Starts | LaunchRaises | SetupRaises nat

definition launch :: "browser_kind \<Rightarrow> webdriver" where
  "launch k = \<lparr>kind = k, window_handles = [0], current_window_handle = 0,
               alive = True, issued = []\<rparr>"

definition fresh_handle :: "handle list \<Rightarrow> handle" where
  "fresh_handle hs = Suc (foldr max hs 0)"

definition sent :: "command \<Rightarrow> webdriver \<Rightarrow> webdriver" where
  "sent c d = d\<lparr>issued := issued d @ [c]\<rparr>"

definition read_current_window_handle :: "bool \<Rightarrow> webdriver \<Rightarrow> (error + handle) \<times> webdriver" where
  "read_current_window_handle raises d =
     (if raises then (Inl SetupFailure, sent CurrentWindowHandle d)
      else (Inr (current_window_handle d), sent CurrentWindowHandle d))"

definition read_window_handles :: "bool \<Rightarrow> webdriver \<Rightarrow> (error + handle list) \<times> webdriver" where
  "read_window_handles raises d =
     (if raises then (Inl SetupFailure, sent WindowHandles d)
      else (Inr (window_handles d), sent WindowHandles d))"

text \<open>\<open>execute_script("window.open('', '_blank');")\<close>: one more tab, the focus stays.\<close>

definition new_tab :: "webdriver \<Rightarrow> webdriver" where
  "new_tab d =
     (sent ExecuteScript d)\<lparr>window_handles := window_handles d @ [fresh_handle (window_handles d)]\<rparr>"

definition execute_script :: "bool \<Rightarrow> webdriver \<Rightarrow> (error + unit) \<times> webdriver" where
  "execute_script raises d =
     (if raises then (Inl SetupFailure, sent ExecuteScript d) else (Inr (), new_tab d))"

definition switch_to_window :: "handle \<Rightarrow> fetch \<Rightarrow> webdriver \<Rightarrow> (error + unit) \<times> webdriver" where
  "switch_to_window h env d =
     (let d1 = sent (SwitchTo h) d in
      if \<not> alive d then (Inl InvalidSessionId, d1)
      else if h \<notin> set (window_handles d) then (Inl NoSuchWindow, d1)
      else if env = SwitchRaises then (Inl SwitchFailure, d1)
      else (Inr (), d1\<lparr>current_window_handle := h\<rparr>))"

definition get :: "string \<Rightarrow> fetch \<Rightarrow> webdriver \<Rightarrow> (error + unit) \<times> webdriver" where
  "get u env d =
     (let d1 = sent (Get u) d in
      if \<not> alive d then (Inl InvalidSessionId, d1)
      else if env = GetRaises then (Inl NavigationFailure, d1)
      else (Inr (), d1))"

definition page_source :: "fetch \<Rightarrow> webdriver \<Rightarrow> (error + string) \<times> webdriver" where
  "page_source env d =
     (let d1 = sent PageSource d in
      if \<not> alive d then (Inl InvalidSessionId, d1)
      else (case env of Loaded src u \<Rightarrow> (Inr src, d1) | _ \<Rightarrow> (Inl CaptureFailure, d1)))"

definition current_url :: "fetch \<Rightarrow> webdriver \<Rightarrow> (error + string) \<times> webdriver" where
  "current_url env d =
     (let d1 = sent CurrentUrl d in
      if \<not> alive d then (Inl InvalidSessionId, d1)
      else (case env of Loaded src u \<Rightarrow> (Inr u, d1) | _ \<Rightarrow> (Inl CaptureFailure, d1)))"

text \<open>\<open>quit()\<close> ends the session, or raises and leaves the driver as it was.\<close>

definition quit :: "bool \<Rightarrow> webdriver \<Rightarrow> (error + unit) \<times> webdriver" where
  "quit ok d =
     (let d1 = sent Quit d in
      if ok then (Inr (), d1\<lparr>alive := False\<rparr>) else (Inl QuitFailure, d1))"

subsection \<open>The blocking queue\<close>

text \<open>\<open>Queue.get()\<close> takes the oldest element and blocks on an empty queue (\<open>None\<close>);
  \<open>Queue.put\<close> appends.\<close>

definition queue_get :: "handle list \<Rightarrow> (handle \<times> handle list) option" where
  "queue_get q = (case q of [] \<Rightarrow> None | h # rest \<Rightarrow> Some (h, rest))"

definition queue_put :: "handle \<Rightarrow> handle list \<Rightarrow> handle list" where
  "queue_put h q = q @ [h]"

subsection \<open>Process-wide state and the middleware instance\<close>

datatype lock_id = GLOBAL_LOCK | GLOBAL_INSTANCE_LOCK

record process =
  GLOBAL_DRIVER :: "ref option"
  GLOBAL_TAB_POOL :: "ref option"
  GLOBAL_MAX_TABS :: "int option"
  drivers :: "ref \<Rightarrow> webdriver"
  launched :: nat
  queues :: "ref \<Rightarrow> handle list"
  allocated :: nat

record SeleniumMiddleware =
  driver :: ref
  tab_pool :: "ref option"
  max_tabs :: "int option"
  lock :: lock_id

record request =
  url :: string

record response =
  resp_url :: string
  body :: string
  encoding :: string
  resp_request :: request
  meta_driver :: ref
  meta_tab_handle :: handle

text \<open>The module as loaded: the globals are \<open>None\<close> and no object exists yet.\<close>

definition module_loaded :: process where
  "module_loaded =
     \<lparr>GLOBAL_DRIVER = None, GLOBAL_TAB_POOL = None, GLOBAL_MAX_TABS = None,
      drivers = (\<lambda>_. (launch Firefox)\<lparr>alive := False\<rparr>), launched = 0,
      queues = (\<lambda>_. []), allocated = 0\<rparr>"

subsection \<open>\<open>SeleniumMiddleware.__init__\<close>\<close>

text \<open>The loop \<open>for i in range(max_tabs - 1)\<close>, by the number of rounds left and the
  index \<open>i\<close> of the next round; an exception of \<open>execute_script\<close> ends it.\<close>

fun open_tabs :: "nat \<Rightarrow> nat \<Rightarrow> startup \<Rightarrow> webdriver \<Rightarrow> (error + unit) \<times> webdriver" where
  "open_tabs 0 i st d = (Inr (), d)"
| "open_tabs (Suc k) i st d =
     (case execute_script (st = SetupRaises (Suc i)) d of
        (Inl e, d1) \<Rightarrow> (Inl e, d1)
      | (Inr u, d1) \<Rightarrow> open_tabs k (Suc i) st d1)"

text \<open>The driver and the queue that a construction has made so far, put into the store;
  the globals are not touched.\<close>

definition created :: "webdriver \<Rightarrow> handle list \<Rightarrow> process \<Rightarrow> process" where
  "created d pool s =
     s\<lparr>drivers := (drivers s)(launched s := d), launched := Suc (launched s),
       queues := (queues s)(allocated s := pool), allocated := Suc (allocated s)\<rparr>"

text \<open>
  Lines 84 to 174; the whole body runs under \<open>_GLOBAL_LOCK\<close>. When the browser does not
  come up, the constructor raises before any object exists. When a call on the running
  browser raises (lines 148, 154, 158), the constructor raises with the browser launched
  and the globals, which are assigned at lines 163 to 165 only, still \<open>None\<close>; nothing
  quits that browser. \<open>all_tabs[1:]\<close> is \<open>drop 1\<close>; the printing is left out.
\<close>

definition init :: "string \<Rightarrow> int \<Rightarrow> startup \<Rightarrow> process \<Rightarrow> (error + SeleniumMiddleware) \<times> process" where
  "init browser n st s =
     (case GLOBAL_DRIVER s of
        Some d \<Rightarrow>
          (Inr \<lparr>driver = d, tab_pool = GLOBAL_TAB_POOL s, max_tabs = GLOBAL_MAX_TABS s,
                lock = GLOBAL_INSTANCE_LOCK\<rparr>, s)
      | None \<Rightarrow>
          if st = LaunchRaises then (Inl LaunchFailure, s)
          else
            let d0 = launch (if browser = ''chrome'' then Chrome else Firefox);
                pool = []
            in
            (case read_current_window_handle (st = SetupRaises 0) d0 of
               (Inl e, d1) \<Rightarrow> (Inl e, created d1 pool s)
             | (Inr main_tab, d1) \<Rightarrow>
                 let pool0 = queue_put main_tab pool in
                 (case open_tabs (nat (n - 1)) 0 st d1 of
                    (Inl e, d2) \<Rightarrow> (Inl e, created d2 pool0 s)
                  | (Inr u, d2) \<Rightarrow>
                      (case read_window_handles (st = SetupRaises (Suc (nat (n - 1)))) d2 of
                         (Inl e, d3) \<Rightarrow> (Inl e, created d3 pool0 s)
                       | (Inr all_tabs, d3) \<Rightarrow>
                           let pool1 = foldl (\<lambda>q tab. queue_put tab q) pool0 (drop 1 all_tabs)
                           in (Inr \<lparr>driver = launched s, tab_pool = Some (allocated s),
                                    max_tabs = Some n, lock = GLOBAL_INSTANCE_LOCK\<rparr>,
                               (created d3 pool1 s)
                                 \<lparr>GLOBAL_DRIVER := Some (launched s),
                                  GLOBAL_TAB_POOL := Some (allocated s),
                                  GLOBAL_MAX_TABS := Some n\<rparr>)))))"

subsection \<open>\<open>SeleniumMiddleware.spider_closed\<close>\<close>

text \<open>Lines 287 to 299, under \<open>_GLOBAL_LOCK\<close>; \<open>self\<close> is only printed.
  \<open>quits\<close> says whether \<open>quit()\<close> returns. An exception of \<open>quit()\<close> is caught
  (line 296) and printed, and the three assignments after it are skipped. The result is
  \<open>Inr ()\<close> on every path: no exception leaves the method.\<close>

definition spider_closed :: "bool \<Rightarrow> process \<Rightarrow> (error + unit) \<times> process" where
  "spider_closed quits s =
     (case GLOBAL_DRIVER s of
        Some d \<Rightarrow>
          (case quit quits (drivers s d) of
             (Inr _, d') \<Rightarrow>
               (Inr (), s\<lparr>drivers := (drivers s)(d := d'), GLOBAL_DRIVER := None,
                          GLOBAL_TAB_POOL := None, GLOBAL_MAX_TABS := None\<rparr>)
           | (Inl e, d') \<Rightarrow> (Inr (), s\<lparr>drivers := (drivers s)(d := d')\<rparr>))
      | None \<Rightarrow> (Inr (), s))"

subsection \<open>\<open>SeleniumMiddleware.process_request\<close>\<close>

text \<open>The block under \<open>self.lock\<close> (lines 246 to 256): switch, load, read the source
  and the address. The \<open>spider\<close> argument is only used for logging and is left out.\<close>

definition critical_section ::
  "handle \<Rightarrow> request \<Rightarrow> fetch \<Rightarrow> webdriver \<Rightarrow> (error + string \<times> string) \<times> webdriver" where
  "critical_section tab_handle req env d =
     (case switch_to_window tab_handle env d of
        (Inl e, d1) \<Rightarrow> (Inl e, d1)
      | (Inr _, d1) \<Rightarrow>
          (case get (url req) env d1 of
             (Inl e, d2) \<Rightarrow> (Inl e, d2)
           | (Inr _, d2) \<Rightarrow>
               (case page_source env d2 of
                  (Inl e, d3) \<Rightarrow> (Inl e, d3)
                | (Inr src, d3) \<Rightarrow>
                    (case current_url env d3 of
                       (Inl e, d4) \<Rightarrow> (Inl e, d4)
                     | (Inr u, d4) \<Rightarrow> (Inr (src, u), d4)))))"

text \<open>The response built after the lock is released (lines 259 to 266); an exception
  of the block passes through.\<close>

definition build_response ::
  "SeleniumMiddleware \<Rightarrow> handle \<Rightarrow> request \<Rightarrow> error + string \<times> string \<Rightarrow> error + response" where
  "build_response self tab_handle req r =
     (case r of
        Inl e \<Rightarrow> Inl e
      | Inr (src, u) \<Rightarrow>
          Inr \<lparr>resp_url = u, body = src, encoding = ''utf-8'', resp_request = req,
               meta_driver = driver self, meta_tab_handle = tab_handle\<rparr>)"

text \<open>The three stages of a call, each on the shared state: \<open>self.tab_pool.get()\<close>
  (line 243), the \<open>try\<close> block (lines 246 to 268), and \<open>self.tab_pool.put(tab_handle)\<close>
  of the \<open>finally\<close> clause (line 272).\<close>

definition take_tab :: "ref \<Rightarrow> process \<Rightarrow> (handle \<times> process) option" where
  "take_tab q s =
     (case queue_get (queues s q) of
        None \<Rightarrow> None
      | Some (h, rest) \<Rightarrow> Some (h, s\<lparr>queues := (queues s)(q := rest)\<rparr>))"

definition use_tab ::
  "SeleniumMiddleware \<Rightarrow> handle \<Rightarrow> request \<Rightarrow> fetch \<Rightarrow> process \<Rightarrow> (error + response) \<times> process" where
  "use_tab self tab_handle req env s =
     (case critical_section tab_handle req env (drivers s (driver self)) of
        (r, d') \<Rightarrow>
          (build_response self tab_handle req r,
           s\<lparr>drivers := (drivers s)(driver self := d')\<rparr>))"

definition give_back :: "ref \<Rightarrow> handle \<Rightarrow> process \<Rightarrow> process" where
  "give_back q tab_handle s = s\<lparr>queues := (queues s)(q := queue_put tab_handle (queues s q))\<rparr>"

text \<open>
  One call run to its end without interference. \<open>None\<close>: the call waits for a tab for
  ever. The \<open>finally\<close> clause puts the tab back whatever the \<open>try\<close> block did.
  An instance whose \<open>tab_pool\<close> is \<open>None\<close> raises at line 243, before the \<open>try\<close>.
\<close>

definition process_request ::
  "SeleniumMiddleware \<Rightarrow> request \<Rightarrow> fetch \<Rightarrow> process \<Rightarrow> ((error + response) \<times> process) option" where
  "process_request self req env s =
     (case tab_pool self of
        None \<Rightarrow> Some (Inl AttributeError, s)
      | Some q \<Rightarrow>
          (case take_tab q s of
             None \<Rightarrow> None
           | Some (tab_handle, s1) \<Rightarrow>
               (case use_tab self tab_handle req env s1 of
                  (result, s2) \<Rightarrow> Some (result, give_back q tab_handle s2))))"

subsection \<open>Calls in flight\<close>

text \<open>
  Worker threads run \<open>process_request\<close> side by side. A call is at one of four points:
  before \<open>tab_pool.get()\<close>, holding a tab before the locked block, holding it with its
  result in hand before the \<open>finally\<close> clause, or returned. \<open>Queue.get\<close> and
  \<open>Queue.put\<close> are atomic and the block runs under \<open>self.lock\<close>, so an execution is
  a sequence of these stages, one thread at a time; a thread that finds the queue empty
  stays where it is. The locked block touches the driver only and the queue operations
  touch the queue only, so a \<open>get\<close> or \<open>put\<close> of another thread that falls inside
  the block can be moved before or after it. All instances of a session are equal records,
  so the calls share one \<open>self\<close>.
\<close>

datatype task =
    Pending request fetch
  | Holding handle request fetch
  | Releasing handle "error + response"
  | Returned "error + response"

definition advance :: "SeleniumMiddleware \<Rightarrow> task \<Rightarrow> process \<Rightarrow> task \<times> process" where
  "advance self t s =
     (case t of
        Pending req env \<Rightarrow>
          (case tab_pool self of
             None \<Rightarrow> (Returned (Inl AttributeError), s)
           | Some q \<Rightarrow>
               (case take_tab q s of
                  None \<Rightarrow> (t, s)
                | Some (h, s1) \<Rightarrow> (Holding h req env, s1)))
      | Holding h req env \<Rightarrow>
          (case use_tab self h req env s of (r, s1) \<Rightarrow> (Releasing h r, s1))
      | Releasing h r \<Rightarrow>
          (case tab_pool self of
             None \<Rightarrow> (Returned (Inl AttributeError), s)
           | Some q \<Rightarrow> (Returned r, give_back q h s))
      | Returned r \<Rightarrow> (t, s))"

definition step :: "SeleniumMiddleware \<Rightarrow> nat \<Rightarrow> task list \<times> process \<Rightarrow> task list \<times> process" where
  "step self i c =
     (case c of
        (ts, s) \<Rightarrow>
          if i < length ts
          then (case advance self (ts ! i) s of (t, s1) \<Rightarrow> (ts[i := t], s1))
          else (ts, s))"

definition run :: "SeleniumMiddleware \<Rightarrow> nat list \<Rightarrow> task list \<times> process \<Rightarrow> task list \<times> process" where
  "run self sched c = fold (step self) sched c"

definition submit :: "(request \<times> fetch) list \<Rightarrow> task list" where
  "submit reqs = map (\<lambda>(req, env). Pending req env) reqs"

fun holder :: "task \<Rightarrow> handle option" where
  "holder (Pending req env) = None"
| "holder (Holding h req env) = Some h"
| "holder (Releasing h r) = Some h"
| "holder (Returned r) = None"

fun checked_out :: "task list \<Rightarrow> handle list" where
  "checked_out [] = []"
| "checked_out (t # ts) =
     (case holder t of None \<Rightarrow> checked_out ts | Some h \<Rightarrow> h # checked_out ts)"

definition pool_of :: "SeleniumMiddleware \<Rightarrow> process \<Rightarrow> handle list" where
  "pool_of self s = (case tab_pool self of None \<Rightarrow> [] | Some q \<Rightarrow> queues s q)"

subsection \<open>Constructor calls in a row\<close>


subsection \<open>Observations used in the statements\<close>

text \<open>The loop when no call raises, and the driver as \<open>__init__\<close> then has it when it
  reads \<open>window_handles\<close>.\<close>

fun opened :: "nat \<Rightarrow> webdriver \<Rightarrow> webdriver" where
  "opened 0 d = d"
| "opened (Suc k) d = opened k (new_tab d)"

definition first_tabs :: "int \<Rightarrow> browser_kind \<Rightarrow> webdriver" where
  "first_tabs n k = opened (nat (n - 1)) (sent CurrentWindowHandle (launch k))"

fun mset_of :: "handle option \<Rightarrow> handle multiset" where
  "mset_of None = {#}"
| "mset_of (Some h) = {#h#}"

definition commands_sent :: "ref \<Rightarrow> process \<Rightarrow> command list" where
  "commands_sent d s = issued (drivers s d)"

section \<open>Properties\<close>

lemma fresh_handle_bound: "h \<in> set hs \<Longrightarrow> h < fresh_handle hs"
  unfolding fresh_handle_def by (induction hs) auto

lemma fresh_handle_notin: "fresh_handle hs \<notin> set hs"
  using fresh_handle_bound by blast

lemma window_handles_new_tab:
  "window_handles (new_tab d) = window_handles d @ [fresh_handle (window_handles d)]"
  by (simp add: new_tab_def sent_def)

lemma open_tabs_Starts: "open_tabs k i Starts d = (Inr (), opened k d)"
  by (induction k arbitrary: i d) (simp_all add: execute_script_def)

lemma window_handles_opened_length:
  "length (window_handles (opened k d)) = length (window_handles d) + k"
  by (induction k arbitrary: d) (simp_all add: window_handles_new_tab)

lemma window_handles_opened_distinct:
  "distinct (window_handles d) \<Longrightarrow> distinct (window_handles (opened k d))"
  by (induction k arbitrary: d) (simp_all add: window_handles_new_tab fresh_handle_notin)

lemma window_handles_opened_prefix:
  "\<exists>ys. window_handles (opened k d) = window_handles d @ ys"
proof (induction k arbitrary: d)
  case 0
  show ?case by simp
next
  case (Suc k)
  from Suc.IH [of "new_tab d"] obtain ys
    where "window_handles (opened k (new_tab d)) = window_handles (new_tab d) @ ys"
    by blast
  then show ?case by (simp add: window_handles_new_tab)
qed

lemma put_all: "foldl (\<lambda>q tab. queue_put tab q) q xs = q @ xs"
  by (induction xs arbitrary: q) (simp_all add: queue_put_def)

lemma first_tabs_handles:
  "[0] @ drop 1 (window_handles (first_tabs n k)) = window_handles (first_tabs n k)"
proof -
  obtain ys where "window_handles (first_tabs n k) = window_handles (sent CurrentWindowHandle (launch k)) @ ys"
    unfolding first_tabs_def using window_handles_opened_prefix by blast
  then show ?thesis by (simp add: sent_def launch_def)
qed

lemma first_tabs_distinct: "distinct (window_handles (first_tabs n k))"
  unfolding first_tabs_def
  by (rule window_handles_opened_distinct) (simp add: sent_def launch_def)

lemma first_tabs_length: "length (window_handles (first_tabs n k)) = Suc (nat (n - 1))"
  unfolding first_tabs_def
  by (simp add: window_handles_opened_length sent_def launch_def)

lemma init_creates:
  assumes "GLOBAL_DRIVER s = None"
  shows "init browser n Starts s =
    (Inr \<lparr>driver = launched s, tab_pool = Some (allocated s), max_tabs = Some n,
          lock = GLOBAL_INSTANCE_LOCK\<rparr>,
     s\<lparr>GLOBAL_DRIVER := Some (launched s), GLOBAL_TAB_POOL := Some (allocated s),
       GLOBAL_MAX_TABS := Some n,
       drivers := (drivers s)(launched s :=
          sent WindowHandles (first_tabs n (if browser = ''chrome'' then Chrome else Firefox))),
       launched := Suc (launched s),
       queues := (queues s)(allocated s :=
          window_handles (first_tabs n (if browser = ''chrome'' then Chrome else Firefox))),
       allocated := Suc (allocated s)\<rparr>)"
proof -
  let ?k = "if browser = ''chrome'' then Chrome else Firefox"
  have "queue_put 0 [] @ drop 1 (window_handles (first_tabs n ?k)) = window_handles (first_tabs n ?k)"
    using first_tabs_handles [of n ?k] by (simp add: queue_put_def)
  then show ?thesis
    using assms
    by (simp add: init_def Let_def read_current_window_handle_def read_window_handles_def
        open_tabs_Starts created_def put_all first_tabs_def launch_def sent_def)
qed



text \<open>A session of two tabs, created in a process that has just loaded the module.\<close>

lemma two_tabs_created:
  "init ''firefox'' 2 Starts module_loaded =
     (Inr \<lparr>driver = 0, tab_pool = Some 0, max_tabs = Some 2, lock = GLOBAL_INSTANCE_LOCK\<rparr>,
      snd (init ''firefox'' 2 Starts module_loaded))"
  using init_creates [of module_loaded "''firefox''" 2] by (simp add: module_loaded_def)

lemma two_tabs_pool: "queues (snd (init ''firefox'' 2 Starts module_loaded)) 0 = [0, 1]"
  by code_simp

lemma two_tabs_global: "GLOBAL_DRIVER (snd (init ''firefox'' 2 Starts module_loaded)) = Some 0"
  by code_simp


lemma checked_out_update:
  "i < length ts \<Longrightarrow>
   mset (checked_out (ts[i := t])) + mset_of (holder (ts ! i)) =
   mset (checked_out ts) + mset_of (holder t)"
proof (induction ts arbitrary: i)
  case Nil
  then show ?case by simp
next
  case (Cons a ts)
  show ?case
  proof (cases i)
    case 0
    then show ?thesis by (cases "holder a"; cases "holder t") simp_all
  next
    case (Suc j)
    with Cons.prems have "j < length ts" by simp
    from Cons.IH [OF this] Suc show ?thesis
      by (cases "holder a") (simp_all add: ac_simps)
  qed
qed

lemma take_tab_queues:
  "take_tab q s = Some (h, s1) \<Longrightarrow> queues s q = h # queues s1 q"
  by (auto simp: take_tab_def queue_get_def split: list.splits)

lemma use_tab_queues:
  "use_tab self h req env s = (r, s1) \<Longrightarrow> queues s1 = queues s"
  by (auto simp: use_tab_def split: prod.splits)

lemma give_back_queues:
  "queues (give_back q h s) q = queues s q @ [h]"
  by (simp add: give_back_def queue_put_def)

lemma advance_conserves:
  assumes "tab_pool self = Some q" and "advance self t s = (t', s')"
  shows "mset (queues s' q) + mset_of (holder t') = mset (queues s q) + mset_of (holder t)"
proof (cases t)
  case (Pending req env)
  show ?thesis
  proof (cases "take_tab q s")
    case None
    with Pending assms show ?thesis by (simp add: advance_def)
  next
    case (Some p)
    obtain h s1 where p: "p = (h, s1)" by (cases p)
    from Pending assms Some p have "t' = Holding h req env" "s' = s1"
      by (simp_all add: advance_def)
    with take_tab_queues [of q s h s1] Some p Pending show ?thesis by simp
  qed
next
  case (Holding h req env)
  obtain r s1 where u: "use_tab self h req env s = (r, s1)"
    by (cases "use_tab self h req env s")
  with Holding assms have "t' = Releasing h r" "s' = s1" by (simp_all add: advance_def)
  with use_tab_queues [OF u] Holding show ?thesis by simp
next
  case (Releasing h r)
  with assms have "t' = Returned r" "s' = give_back q h s" by (simp_all add: advance_def)
  with Releasing show ?thesis by (simp add: give_back_queues)
next
  case (Returned r)
  with assms show ?thesis by (simp add: advance_def)
qed

lemma step_conserves:
  assumes "tab_pool self = Some q" and "step self i (ts, s) = (ts', s')"
  shows "mset (queues s' q) + mset (checked_out ts') = mset (queues s q) + mset (checked_out ts)"
proof (cases "i < length ts")
  case False
  with assms(2) show ?thesis by (simp add: step_def)
next
  case True
  obtain t' s1 where a: "advance self (ts ! i) s = (t', s1)"
    by (cases "advance self (ts ! i) s")
  with True assms(2) have e: "ts' = ts[i := t']" "s' = s1" by (simp_all add: step_def)
  from advance_conserves [OF assms(1) a] checked_out_update [OF True, of t']
  show ?thesis unfolding e
  proof -
    assume a1: "mset (queues s1 q) + mset_of (holder t') = mset (queues s q) + mset_of (holder (ts ! i))"
    assume a2: "mset (checked_out (ts[i := t'])) + mset_of (holder (ts ! i)) = mset (checked_out ts) + mset_of (holder t')"
    have "mset (queues s1 q) + mset (checked_out (ts[i := t'])) + mset_of (holder (ts ! i)) + mset_of (holder t')
        = (mset (queues s1 q) + mset_of (holder t')) + (mset (checked_out (ts[i := t'])) + mset_of (holder (ts ! i)))"
      by (simp add: ac_simps)
    also have "\<dots> = mset (queues s q) + mset (checked_out ts) + mset_of (holder (ts ! i)) + mset_of (holder t')"
      unfolding a1 a2 by (simp add: ac_simps)
    finally show "mset (queues s1 q) + mset (checked_out (ts[i := t'])) = mset (queues s q) + mset (checked_out ts)"
      by simp
  qed
qed

lemma step_length: "step self i (ts, s) = (ts', s') \<Longrightarrow> length ts' = length ts"
  by (auto simp: step_def split: if_splits prod.splits)

lemma run_conserves:
  assumes "tab_pool self = Some q" and "run self sched (ts, s) = (ts', s')"
  shows "mset (queues s' q) + mset (checked_out ts') = mset (queues s q) + mset (checked_out ts)"
  using assms(2)
proof (induction sched arbitrary: ts s)
  case Nil
  then show ?case by (simp add: run_def)
next
  case (Cons i sched)
  obtain ts1 s1 where st: "step self i (ts, s) = (ts1, s1)" by (cases "step self i (ts, s)")
  with Cons.prems have "run self sched (ts1, s1) = (ts', s')" by (simp add: run_def)
  from Cons.IH [OF this] step_conserves [OF assms(1) st] show ?case by simp
qed

lemma run_length: "run self sched (ts, s) = (ts', s') \<Longrightarrow> length ts' = length ts"
proof (induction sched arbitrary: ts s)
  case Nil
  then show ?case by (simp add: run_def)
next
  case (Cons i sched)
  obtain ts1 s1 where st: "step self i (ts, s) = (ts1, s1)" by (cases "step self i (ts, s)")
  with Cons.prems have "run self sched (ts1, s1) = (ts', s')" by (simp add: run_def)
  from Cons.IH [OF this] step_length [OF st] show ?case by simp
qed

lemma checked_out_submit: "checked_out (submit reqs) = []"
  by (induction reqs) (auto simp: submit_def)

lemma init_pool:
  assumes "GLOBAL_DRIVER s0 = None" and "init browser n Starts s0 = (Inr self, s)"
  shows "tab_pool self = Some (allocated s0)"
    and "max_tabs self = Some n"
    and "distinct (pool_of self s)"
    and "length (pool_of self s) = Suc (nat (n - 1))"
  using assms(2) init_creates [OF assms(1), of browser n]
  by (auto simp: pool_of_def first_tabs_distinct first_tabs_length)

lemma run_pool:
  assumes "tab_pool self = Some q" and "run self sched (submit reqs, s) = (ts', s')"
  shows "mset (pool_of self s' @ checked_out ts') = mset (pool_of self s)"
  using run_conserves [OF assms] assms(1) by (simp add: pool_of_def checked_out_submit)

text \<open>
  C2. Take the instance and the state that a creating constructor call with tab count
  \<open>n \<ge> 1\<close> leaves, any list of requests and any schedule of the threads that serve
  them. After the schedule, and so at every point of every execution, the tabs in the pool
  and the tabs checked out add up to the tab count of the instance; no tab occurs twice
  among them, so none is both in the pool and checked out and none is checked out to two
  calls; and together they are exactly the tabs the pool started with.
\<close>
theorem pool_conservation:
  assumes "GLOBAL_DRIVER s0 = None" and "1 \<le> n"
    and "init browser n Starts s0 = (Inr self, s)"
    and "run self sched (submit reqs, s) = (ts', s')"
  shows "Some (int (length (pool_of self s') + length (checked_out ts'))) = max_tabs self \<and>
         distinct (pool_of self s' @ checked_out ts') \<and>
         set (pool_of self s' @ checked_out ts') = set (pool_of self s)"
proof -
  note p = init_pool [OF assms(1) assms(3)]
  have m: "mset (pool_of self s' @ checked_out ts') = mset (pool_of self s)"
    by (rule run_pool [OF p(1) assms(4)])
  have "length (pool_of self s' @ checked_out ts') = length (pool_of self s)"
    using m by (rule mset_eq_length)
  with p(4) assms(2) have "int (length (pool_of self s') + length (checked_out ts')) = n"
    by simp
  moreover have "distinct (pool_of self s' @ checked_out ts')"
    using mset_eq_imp_distinct_iff [OF m] p(3) by simp
  moreover have "set (pool_of self s' @ checked_out ts') = set (pool_of self s)"
    using m by (rule mset_eq_setD)
  ultimately show ?thesis using p(2) by simp
qed

theorem pool_conservation_witness:
  "Some (int (length (pool_of \<lparr>driver = 0, tab_pool = Some 0, max_tabs = Some 2, lock = GLOBAL_INSTANCE_LOCK\<rparr>
            (snd (run \<lparr>driver = 0, tab_pool = Some 0, max_tabs = Some 2, lock = GLOBAL_INSTANCE_LOCK\<rparr>
                   [0, 1, 2, 0, 0, 2]
                   (submit [(\<lparr>url = ''a''\<rparr>, Loaded ''x'' ''a''), (\<lparr>url = ''b''\<rparr>, GetRaises),
                            (\<lparr>url = ''c''\<rparr>, Loaded ''z'' ''c'')],
                    snd (init ''firefox'' 2 Starts module_loaded))))) +
        length (checked_out
            (fst (run \<lparr>driver = 0, tab_pool = Some 0, max_tabs = Some 2, lock = GLOBAL_INSTANCE_LOCK\<rparr>
                   [0, 1, 2, 0, 0, 2]
                   (submit [(\<lparr>url = ''a''\<rparr>, Loaded ''x'' ''a''), (\<lparr>url = ''b''\<rparr>, GetRaises),
                            (\<lparr>url = ''c''\<rparr>, Loaded ''z'' ''c'')],
                    snd (init ''firefox'' 2 Starts module_loaded)))))))
     = Some 2 \<and>
   checked_out
            (fst (run \<lparr>driver = 0, tab_pool = Some 0, max_tabs = Some 2, lock = GLOBAL_INSTANCE_LOCK\<rparr>
                   [0, 1, 2, 0, 0, 2]
                   (submit [(\<lparr>url = ''a''\<rparr>, Loaded ''x'' ''a''), (\<lparr>url = ''b''\<rparr>, GetRaises),
                            (\<lparr>url = ''c''\<rparr>, Loaded ''z'' ''c'')],
                    snd (init ''firefox'' 2 Starts module_loaded)))) = [1, 0]"
proof -
  let ?self = "\<lparr>driver = 0, tab_pool = Some 0, max_tabs = Some 2, lock = GLOBAL_INSTANCE_LOCK\<rparr>"
  let ?s = "snd (init ''firefox'' 2 Starts module_loaded)"
  let ?c = "run ?self [0, 1, 2, 0, 0, 2]
                   (submit [(\<lparr>url = ''a''\<rparr>, Loaded ''x'' ''a''), (\<lparr>url = ''b''\<rparr>, GetRaises),
                            (\<lparr>url = ''c''\<rparr>, Loaded ''z'' ''c'')], ?s)"
  have a: "GLOBAL_DRIVER module_loaded = None" by (simp add: module_loaded_def)
  have b: "(1::int) \<le> 2" by simp
  have c: "?c = (fst ?c, snd ?c)" by simp
  have d: "checked_out (fst ?c) = [1, 0]" by code_simp
  from pool_conservation [OF a b two_tabs_created c] d show ?thesis by simp
qed

lemma holder_checked_out:
  "k < length ts \<Longrightarrow> holder (ts ! k) = Some h \<Longrightarrow> h \<in> set (checked_out ts)"
proof (induction ts arbitrary: k)
  case Nil
  then show ?case by simp
next
  case (Cons a ts)
  then show ?case by (cases k) (auto split: option.splits)
qed

lemma distinct_holders:
  "distinct (checked_out ts) \<Longrightarrow> i < j \<Longrightarrow> j < length ts \<Longrightarrow>
   holder (ts ! i) = Some h \<Longrightarrow> holder (ts ! j) \<noteq> Some h"
proof (induction ts arbitrary: i j)
  case Nil
  then show ?case by simp
next
  case (Cons a ts)
  from Cons.prems(2) obtain j' where j: "j = Suc j'" by (cases j) auto
  with Cons.prems(3) have j': "j' < length ts" by simp
  show ?case
  proof (cases i)
    case 0
    with Cons.prems(4) have a: "holder a = Some h" by simp
    with Cons.prems(1) have "h \<notin> set (checked_out ts)" by simp
    with holder_checked_out [OF j'] have "holder (ts ! j') \<noteq> Some h" by blast
    with j show ?thesis by simp
  next
    case (Suc i')
    from Cons.prems(1) have d: "distinct (checked_out ts)" by (cases "holder a") simp_all
    from Suc j Cons.prems(2) have "i' < j'" by simp
    from Cons.IH [OF d this j'] Cons.prems(4) Suc j show ?thesis by simp
  qed
qed

text \<open>
  C4. In every execution of concurrent \<open>process_request\<close> calls on the instance a
  creating constructor call returned, two different calls never hold the same tab between
  their \<open>tab_pool.get()\<close> and their \<open>tab_pool.put\<close>.
\<close>
theorem exclusive_ownership:
  assumes "GLOBAL_DRIVER s0 = None"
    and "init browser n Starts s0 = (Inr self, s)"
    and "run self sched (submit reqs, s) = (ts', s')"
    and "i < j" and "j < length ts'"
    and "holder (ts' ! i) = Some h"
  shows "holder (ts' ! j) \<noteq> Some h"
proof -
  note p = init_pool [OF assms(1) assms(2)]
  have m: "mset (pool_of self s' @ checked_out ts') = mset (pool_of self s)"
    by (rule run_pool [OF p(1) assms(3)])
  have "distinct (pool_of self s' @ checked_out ts')"
    using mset_eq_imp_distinct_iff [OF m] p(3) by simp
  then have "distinct (checked_out ts')" by simp
  from distinct_holders [OF this assms(4) assms(5) assms(6)] show ?thesis .
qed

theorem exclusive_ownership_witness:
  "holder (fst (run \<lparr>driver = 0, tab_pool = Some 0, max_tabs = Some 2, lock = GLOBAL_INSTANCE_LOCK\<rparr>
                   [0, 1, 2, 0, 0, 2]
                   (submit [(\<lparr>url = ''a''\<rparr>, Loaded ''x'' ''a''), (\<lparr>url = ''b''\<rparr>, GetRaises),
                            (\<lparr>url = ''c''\<rparr>, Loaded ''z'' ''c'')],
                    snd (init ''firefox'' 2 Starts module_loaded))) ! 1) = Some 1 \<and>
   holder (fst (run \<lparr>driver = 0, tab_pool = Some 0, max_tabs = Some 2, lock = GLOBAL_INSTANCE_LOCK\<rparr>
                   [0, 1, 2, 0, 0, 2]
                   (submit [(\<lparr>url = ''a''\<rparr>, Loaded ''x'' ''a''), (\<lparr>url = ''b''\<rparr>, GetRaises),
                            (\<lparr>url = ''c''\<rparr>, Loaded ''z'' ''c'')],
                    snd (init ''firefox'' 2 Starts module_loaded))) ! 2) \<noteq> Some 1"
proof -
  let ?self = "\<lparr>driver = 0, tab_pool = Some 0, max_tabs = Some 2, lock = GLOBAL_INSTANCE_LOCK\<rparr>"
  let ?s = "snd (init ''firefox'' 2 Starts module_loaded)"
  let ?c = "run ?self [0, 1, 2, 0, 0, 2]
                   (submit [(\<lparr>url = ''a''\<rparr>, Loaded ''x'' ''a''), (\<lparr>url = ''b''\<rparr>, GetRaises),
                            (\<lparr>url = ''c''\<rparr>, Loaded ''z'' ''c'')], ?s)"
  have a: "GLOBAL_DRIVER module_loaded = None" by (simp add: module_loaded_def)
  have c: "?c = (fst ?c, snd ?c)" by simp
  have i: "(1::nat) < 2" by simp
  have j: "2 < length (fst ?c)" using run_length [OF c] by (simp add: submit_def)
  have h: "holder (fst ?c ! 1) = Some 1" by code_simp
  from exclusive_ownership [OF a two_tabs_created c i j h] h show ?thesis by simp
qed

lemma process_request_returns:
  assumes "tab_pool self = Some q" and "queues s q = h # rest"
  shows "process_request self req env s =
     Some (fst (use_tab self h req env (s\<lparr>queues := (queues s)(q := rest)\<rparr>)),
           give_back q h (snd (use_tab self h req env (s\<lparr>queues := (queues s)(q := rest)\<rparr>))))"
  using assms
  by (simp add: process_request_def take_tab_def queue_get_def split: prod.splits)

lemma use_tab_snd_queues: "queues (snd (use_tab self h req env s)) = queues s"
  using use_tab_queues [of self h req env s] by (cases "use_tab self h req env s") simp

text \<open>
  C3. A \<open>process_request\<close> call that obtains a tab returns, whatever the world answers
  (the page, or an exception of the switch, of the load or of the capture) and whatever
  state the driver is in, and when it returns the tab it obtained is back in the queue,
  behind the tabs that were waiting there.
\<close>
theorem tab_returned_on_every_exit:
  assumes "tab_pool self = Some q" and "queues s q = h # rest"
  shows "\<exists>r s'. process_request self req env s = Some (r, s') \<and> queues s' q = rest @ [h]"
  using process_request_returns [OF assms, of req env]
  by (simp add: give_back_queues use_tab_snd_queues)

lemma two_tabs_navigation_raises:
  "map_option fst (process_request
       \<lparr>driver = 0, tab_pool = Some 0, max_tabs = Some 2, lock = GLOBAL_INSTANCE_LOCK\<rparr>
       \<lparr>url = ''b''\<rparr> GetRaises (snd (init ''firefox'' 2 Starts module_loaded))) =
     Some (Inl NavigationFailure)"
  by code_simp

theorem tab_returned_on_every_exit_witness:
  "\<exists>s'. process_request \<lparr>driver = 0, tab_pool = Some 0, max_tabs = Some 2, lock = GLOBAL_INSTANCE_LOCK\<rparr>
       \<lparr>url = ''b''\<rparr> GetRaises (snd (init ''firefox'' 2 Starts module_loaded)) =
         Some (Inl NavigationFailure, s') \<and>
     queues s' 0 = [1, 0]"
  using tab_returned_on_every_exit [of "\<lparr>driver = 0, tab_pool = Some 0, max_tabs = Some 2, lock = GLOBAL_INSTANCE_LOCK\<rparr>"
      0 "snd (init ''firefox'' 2 Starts module_loaded)" 0 "[1]" "\<lparr>url = ''b''\<rparr>" GetRaises]
    two_tabs_pool two_tabs_navigation_raises
  by auto








text \<open>
  C5. While \<open>_GLOBAL_DRIVER\<close> holds a driver, a constructor call leaves the whole state
  as it was, its browser and tab-count arguments and the availability of a browser play no
  part, and the instance it returns carries the stored driver, the stored queue and the
  stored tab count.
\<close>
theorem live_session_wins:
  assumes "GLOBAL_DRIVER s = Some d"
  shows "snd (init browser n starts s) = s \<and>
         fst (init browser n starts s) =
           Inr \<lparr>driver = d, tab_pool = GLOBAL_TAB_POOL s, max_tabs = GLOBAL_MAX_TABS s,
                lock = GLOBAL_INSTANCE_LOCK\<rparr>"
  using assms by (simp add: init_def)

theorem live_session_wins_witness:
  "snd (init ''chrome'' 8 Starts (snd (init ''firefox'' 2 Starts module_loaded))) =
     snd (init ''firefox'' 2 Starts module_loaded) \<and>
   fst (init ''chrome'' 8 Starts (snd (init ''firefox'' 2 Starts module_loaded))) =
     Inr \<lparr>driver = 0, tab_pool = Some 0, max_tabs = Some 2, lock = GLOBAL_INSTANCE_LOCK\<rparr>"
proof -
  have t: "GLOBAL_TAB_POOL (snd (init ''firefox'' 2 Starts module_loaded)) = Some 0"
    "GLOBAL_MAX_TABS (snd (init ''firefox'' 2 Starts module_loaded)) = Some 2"
    by code_simp+
  from live_session_wins [OF two_tabs_global, of "''chrome''" 8 Starts] t show ?thesis by simp
qed

text \<open>
  C6. A creating constructor call with tab count \<open>n \<ge> 1\<close> leaves a queue of exactly
  \<open>n\<close> tab handles, all different: the handles the driver reports.
\<close>
theorem pool_after_creation:
  assumes "GLOBAL_DRIVER s0 = None" and "1 \<le> n"
    and "init browser n Starts s0 = (Inr self, s)"
  shows "int (length (pool_of self s)) = n \<and> distinct (pool_of self s) \<and>
         pool_of self s = window_handles (drivers s (driver self))"
proof -
  note p = init_pool [OF assms(1) assms(3)]
  from p(4) assms(2) have "int (length (pool_of self s)) = n" by simp
  moreover have "pool_of self s = window_handles (drivers s (driver self))"
    using assms(3) init_creates [OF assms(1), of browser n]
    by (auto simp: pool_of_def sent_def)
  ultimately show ?thesis using p(3) by simp
qed

theorem pool_after_creation_witness:
  "pool_of \<lparr>driver = 0, tab_pool = Some 0, max_tabs = Some 2, lock = GLOBAL_INSTANCE_LOCK\<rparr>
     (snd (init ''firefox'' 2 Starts module_loaded)) = [0, 1] \<and>
   int (length (pool_of \<lparr>driver = 0, tab_pool = Some 0, max_tabs = Some 2, lock = GLOBAL_INSTANCE_LOCK\<rparr>
     (snd (init ''firefox'' 2 Starts module_loaded)))) = 2 \<and>
   distinct (pool_of \<lparr>driver = 0, tab_pool = Some 0, max_tabs = Some 2, lock = GLOBAL_INSTANCE_LOCK\<rparr>
     (snd (init ''firefox'' 2 Starts module_loaded)))"
proof -
  have a: "GLOBAL_DRIVER module_loaded = None" by (simp add: module_loaded_def)
  have b: "(1::int) \<le> 2" by simp
  have p: "pool_of \<lparr>driver = 0, tab_pool = Some 0, max_tabs = Some 2, lock = GLOBAL_INSTANCE_LOCK\<rparr>
     (snd (init ''firefox'' 2 Starts module_loaded)) = [0, 1]"
    by (simp add: pool_of_def two_tabs_pool)
  from pool_after_creation [OF a b two_tabs_created] p show ?thesis by blast
qed

lemma use_tab_response:
  "use_tab self h req env s = (Inr resp, s') \<Longrightarrow> meta_tab_handle resp = h \<and> meta_driver resp = driver self"
  by (auto simp: use_tab_def build_response_def split: prod.splits sum.splits)

text \<open>
  C10. When \<open>process_request\<close> returns a response, the tab named in the response's
  \<open>meta['tab_handle']\<close> is already in the queue (it is the element put last), and a
  \<open>tab_pool.get()\<close> on that queue succeeds at once: the receiver of the response does
  not own the tab.
\<close>
theorem response_tab_back_in_pool:
  assumes "process_request self req env s = Some (Inr resp, s')"
  shows "meta_tab_handle resp \<in> set (pool_of self s') \<and>
         last (pool_of self s') = meta_tab_handle resp \<and>
         (\<exists>rest. queue_get (pool_of self s') = Some (hd (pool_of self s'), rest))"
proof -
  from assms obtain q where q: "tab_pool self = Some q"
    by (cases "tab_pool self") (simp_all add: process_request_def)
  from assms q obtain h rest where h: "queues s q = h # rest"
    by (cases "queues s q") (simp_all add: process_request_def take_tab_def queue_get_def)
  let ?u = "use_tab self h req env (s\<lparr>queues := (queues s)(q := rest)\<rparr>)"
  from process_request_returns [OF q h, of req env] assms
  have r: "fst ?u = Inr resp" and s': "s' = give_back q h (snd ?u)" by simp_all
  from r have "?u = (Inr resp, snd ?u)" by (metis prod.collapse)
  from use_tab_response [OF this] have m: "meta_tab_handle resp = h" by simp
  have "pool_of self s' = rest @ [h]"
    unfolding s' using q by (simp add: pool_of_def give_back_queues use_tab_snd_queues)
  with m show ?thesis by (cases rest) (simp_all add: queue_get_def)
qed

lemma two_tabs_response:
  "map_option fst (process_request
       \<lparr>driver = 0, tab_pool = Some 0, max_tabs = Some 2, lock = GLOBAL_INSTANCE_LOCK\<rparr>
       \<lparr>url = ''a''\<rparr> (Loaded ''x'' ''a'') (snd (init ''firefox'' 2 Starts module_loaded))) =
     Some (Inr \<lparr>resp_url = ''a'', body = ''x'', encoding = ''utf-8'',
                resp_request = \<lparr>url = ''a''\<rparr>, meta_driver = 0, meta_tab_handle = 0\<rparr>)"
  by code_simp

theorem response_tab_back_in_pool_witness:
  "last (pool_of \<lparr>driver = 0, tab_pool = Some 0, max_tabs = Some 2, lock = GLOBAL_INSTANCE_LOCK\<rparr>
      (snd (the (process_request
       \<lparr>driver = 0, tab_pool = Some 0, max_tabs = Some 2, lock = GLOBAL_INSTANCE_LOCK\<rparr>
       \<lparr>url = ''a''\<rparr> (Loaded ''x'' ''a'') (snd (init ''firefox'' 2 Starts module_loaded)))))) = 0"
proof -
  let ?self = "\<lparr>driver = 0, tab_pool = Some 0, max_tabs = Some 2, lock = GLOBAL_INSTANCE_LOCK\<rparr>"
  let ?p = "process_request ?self \<lparr>url = ''a''\<rparr> (Loaded ''x'' ''a'')
              (snd (init ''firefox'' 2 Starts module_loaded))"
  let ?resp = "\<lparr>resp_url = ''a'', body = ''x'', encoding = ''utf-8'',
                resp_request = \<lparr>url = ''a''\<rparr>, meta_driver = 0, meta_tab_handle = 0\<rparr>"
  from two_tabs_response have "?p = Some (Inr ?resp, snd (the ?p))"
    by (cases ?p) auto
  from response_tab_back_in_pool [OF this] show ?thesis by simp
qed

lemma spider_closed_never_raises: "fst (spider_closed quits s) = Inr ()"
  by (simp add: spider_closed_def quit_def Let_def split: option.splits)

lemma spider_closed_live:
  assumes "GLOBAL_DRIVER s = Some d"
  shows "spider_closed True s =
     (Inr (), s\<lparr>drivers := (drivers s)(d := (sent Quit (drivers s d))\<lparr>alive := False\<rparr>),
                GLOBAL_DRIVER := None, GLOBAL_TAB_POOL := None, GLOBAL_MAX_TABS := None\<rparr>)"
    and "spider_closed False s = (Inr (), s\<lparr>drivers := (drivers s)(d := sent Quit (drivers s d))\<rparr>)"
  using assms by (simp_all add: spider_closed_def quit_def Let_def)

lemma spider_closed_none:
  assumes "GLOBAL_DRIVER s = None"
  shows "spider_closed quits s = (Inr (), s)"
  using assms by (simp add: spider_closed_def)

text \<open>One call alone is the three stages in a row.\<close>

lemma process_request_as_steps:
  assumes "process_request self req env s = Some (r, s')"
  shows "run self [0, 0, 0] ([Pending req env], s) = ([Returned r], s')"
proof (cases "tab_pool self")
  case None
  with assms show ?thesis
    by (simp add: process_request_def run_def step_def advance_def)
next
  case (Some q)
  with assms obtain h s1 where t: "take_tab q s = Some (h, s1)"
    by (cases "take_tab q s") (auto simp: process_request_def)
  obtain r1 s2 where u: "use_tab self h req env s1 = (r1, s2)"
    by (cases "use_tab self h req env s1")
  from assms Some t u have "r = r1" "s' = give_back q h s2"
    by (simp_all add: process_request_def)
  with Some t u show ?thesis
    by (simp add: run_def step_def advance_def)
qed

text \<open>
  C9, as the code has it. While \<open>_GLOBAL_DRIVER\<close> holds a driver, \<open>spider_closed\<close>
  returns without raising. When \<open>quit()\<close> returns, the driver's session has ended and
  the three globals are \<open>None\<close> again. When \<open>quit()\<close> raises, the exception is caught
  and printed and the three globals keep their values.
\<close>

theorem release_clears_state_when_quit_returns:
  assumes "GLOBAL_DRIVER s = Some d"
  shows "fst (spider_closed True s) = Inr () \<and>
         \<not> alive (drivers (snd (spider_closed True s)) d) \<and>
         GLOBAL_DRIVER (snd (spider_closed True s)) = None \<and>
         GLOBAL_TAB_POOL (snd (spider_closed True s)) = None \<and>
         GLOBAL_MAX_TABS (snd (spider_closed True s)) = None \<and>
         fst (spider_closed False s) = Inr () \<and>
         GLOBAL_DRIVER (snd (spider_closed False s)) = GLOBAL_DRIVER s \<and>
         GLOBAL_TAB_POOL (snd (spider_closed False s)) = GLOBAL_TAB_POOL s \<and>
         GLOBAL_MAX_TABS (snd (spider_closed False s)) = GLOBAL_MAX_TABS s"
  by (simp add: spider_closed_live [OF assms])

text \<open>The statement without the condition on \<open>quit()\<close> fails: a live session of two
  tabs, a \<open>quit()\<close> that raises, and the call returns with the three globals still
  set.\<close>

theorem release_with_failing_quit_keeps_session:
  "GLOBAL_DRIVER (snd (init ''firefox'' 2 Starts module_loaded)) = Some 0 \<and>
   fst (spider_closed False (snd (init ''firefox'' 2 Starts module_loaded))) = Inr () \<and>
   GLOBAL_DRIVER (snd (spider_closed False (snd (init ''firefox'' 2 Starts module_loaded)))) = Some 0 \<and>
   GLOBAL_TAB_POOL (snd (spider_closed False (snd (init ''firefox'' 2 Starts module_loaded)))) = Some 0 \<and>
   GLOBAL_MAX_TABS (snd (spider_closed False (snd (init ''firefox'' 2 Starts module_loaded)))) = Some 2"
  by code_simp

theorem release_clears_state_when_quit_returns_witness:
  "\<not> alive (drivers (snd (spider_closed True (snd (init ''firefox'' 2 Starts module_loaded)))) 0) \<and>
   GLOBAL_DRIVER (snd (spider_closed True (snd (init ''firefox'' 2 Starts module_loaded)))) = None \<and>
   GLOBAL_TAB_POOL (snd (spider_closed True (snd (init ''firefox'' 2 Starts module_loaded)))) = None \<and>
   GLOBAL_MAX_TABS (snd (spider_closed True (snd (init ''firefox'' 2 Starts module_loaded)))) = None"
  using release_clears_state_when_quit_returns [OF two_tabs_global] by simp




lemma dead_driver_refuses:
  assumes "\<not> alive d"
  shows "critical_section h req env d = (Inl InvalidSessionId, sent (SwitchTo h) d)"
  using assms by (simp add: critical_section_def switch_to_window_def Let_def)

text \<open>
  C7, as the code has it. \<open>spider_closed\<close> never raises, called once or twice in a row.
  After a call whose \<open>quit()\<close> returned, a second call changes nothing. No statement
  checks for a closed session: \<open>process_request\<close> on an instance of the closed session
  takes the next tab from the instance's queue, sends the switch command to the driver
  that has quit, gets the driver's own error for it, and puts the tab back.
\<close>

theorem release_twice_and_late_dispatch:
  assumes "GLOBAL_DRIVER s = Some (driver self)"
    and "tab_pool self = Some q"
    and "queues s q = h # rest"
  shows "fst (spider_closed quits s) = Inr () \<and>
         fst (spider_closed quits' (snd (spider_closed quits s))) = Inr () \<and>
         spider_closed quits' (snd (spider_closed True s)) = (Inr (), snd (spider_closed True s)) \<and>
         (\<exists>s2. process_request self req env (snd (spider_closed True s)) =
                  Some (Inl InvalidSessionId, s2) \<and>
               queues s2 q = rest @ [h] \<and>
               commands_sent (driver self) s2 =
                 commands_sent (driver self) s @ [Quit, SwitchTo h])"
proof -
  let ?s1 = "snd (spider_closed True s)"
  note c = spider_closed_live(1) [OF assms(1)]
  have g: "GLOBAL_DRIVER ?s1 = None" by (simp add: c)
  have q1: "queues ?s1 q = h # rest" using assms(3) by (simp add: c)
  have d1: "drivers ?s1 (driver self) = (sent Quit (drivers s (driver self)))\<lparr>alive := False\<rparr>"
    by (simp add: c)
  let ?s1' = "?s1\<lparr>queues := (queues ?s1)(q := rest)\<rparr>"
  have "\<not> alive (drivers ?s1' (driver self))" by (simp add: d1)
  from dead_driver_refuses [OF this, of h req env]
  have u: "use_tab self h req env ?s1' =
      (Inl InvalidSessionId,
       ?s1'\<lparr>drivers := (drivers ?s1')(driver self := sent (SwitchTo h) (drivers ?s1' (driver self)))\<rparr>)"
    by (simp add: use_tab_def build_response_def)
  let ?s2 = "give_back q h (snd (use_tab self h req env ?s1'))"
  have p: "process_request self req env ?s1 = Some (Inl InvalidSessionId, ?s2)"
    using process_request_returns [OF assms(2) q1, of req env] u by simp
  have "queues ?s2 q = rest @ [h]"
    by (simp add: give_back_queues use_tab_snd_queues)
  moreover have "commands_sent (driver self) ?s2 = commands_sent (driver self) s @ [Quit, SwitchTo h]"
    unfolding u by (simp add: commands_sent_def give_back_def d1 sent_def)
  ultimately have "\<exists>s2. process_request self req env ?s1 = Some (Inl InvalidSessionId, s2) \<and>
               queues s2 q = rest @ [h] \<and>
               commands_sent (driver self) s2 =
                 commands_sent (driver self) s @ [Quit, SwitchTo h]"
    using p by blast
  moreover have "spider_closed quits' ?s1 = (Inr (), ?s1)"
    by (rule spider_closed_none [OF g])
  ultimately show ?thesis by (simp add: spider_closed_never_raises)
qed

text \<open>A call after teardown reaches the driver: the command log of the quit driver ends
  with the switch, and the error is the driver's, not \<open>SessionClosed\<close>. And a second
  \<open>spider_closed\<close> is not always without effect: after a first call whose \<open>quit()\<close>
  raised, it clears the globals.\<close>

theorem dispatch_after_release_reaches_driver:
  "map_option fst (process_request
       \<lparr>driver = 0, tab_pool = Some 0, max_tabs = Some 2, lock = GLOBAL_INSTANCE_LOCK\<rparr>
       \<lparr>url = ''a''\<rparr> (Loaded ''x'' ''a'')
       (snd (spider_closed True (snd (init ''firefox'' 2 Starts module_loaded))))) =
     Some (Inl InvalidSessionId) \<and>
   map_option fst (process_request
       \<lparr>driver = 0, tab_pool = Some 0, max_tabs = Some 2, lock = GLOBAL_INSTANCE_LOCK\<rparr>
       \<lparr>url = ''a''\<rparr> (Loaded ''x'' ''a'')
       (snd (spider_closed True (snd (init ''firefox'' 2 Starts module_loaded))))) \<noteq>
     Some (Inl SessionClosed) \<and>
   map_option (commands_sent 0 \<circ> snd) (process_request
       \<lparr>driver = 0, tab_pool = Some 0, max_tabs = Some 2, lock = GLOBAL_INSTANCE_LOCK\<rparr>
       \<lparr>url = ''a''\<rparr> (Loaded ''x'' ''a'')
       (snd (spider_closed True (snd (init ''firefox'' 2 Starts module_loaded))))) =
     Some [CurrentWindowHandle, ExecuteScript, WindowHandles, Quit, SwitchTo 0] \<and>
   GLOBAL_DRIVER (snd (spider_closed False (snd (init ''firefox'' 2 Starts module_loaded)))) = Some 0 \<and>
   GLOBAL_DRIVER (snd (spider_closed True
      (snd (spider_closed False (snd (init ''firefox'' 2 Starts module_loaded)))))) = None"
  by code_simp

theorem release_twice_and_late_dispatch_witness:
  "spider_closed True (snd (spider_closed True (snd (init ''firefox'' 2 Starts module_loaded)))) =
     (Inr (), snd (spider_closed True (snd (init ''firefox'' 2 Starts module_loaded)))) \<and>
   (\<exists>s2. process_request
        \<lparr>driver = 0, tab_pool = Some 0, max_tabs = Some 2, lock = GLOBAL_INSTANCE_LOCK\<rparr>
        \<lparr>url = ''a''\<rparr> (Loaded ''x'' ''a'')
        (snd (spider_closed True (snd (init ''firefox'' 2 Starts module_loaded)))) =
           Some (Inl InvalidSessionId, s2) \<and>
         queues s2 0 = [1, 0])"
proof -
  let ?self = "\<lparr>driver = 0, tab_pool = Some 0, max_tabs = Some 2, lock = GLOBAL_INSTANCE_LOCK\<rparr>"
  have a: "GLOBAL_DRIVER (snd (init ''firefox'' 2 Starts module_loaded)) = Some (driver ?self)"
    using two_tabs_global by simp
  have b: "tab_pool ?self = Some 0" by simp
  have c: "queues (snd (init ''firefox'' 2 Starts module_loaded)) 0 = 0 # [1]"
    using two_tabs_pool by simp
  from release_twice_and_late_dispatch [OF a b c, of True True "\<lparr>url = ''a''\<rparr>" "Loaded ''x'' ''a''"]
  show ?thesis by auto
qed

end
